theory Spec2Isabelle
  imports Complex_Main
begin

section \<open>Characters and strings of the Python source\<close>

text \<open>
  A Python \<open>str\<close> is modelled as a \<open>string\<close> whose characters are the code points
  below 256. The character classes are those of CPython for that range:
  \<open>\s\<close> of \<open>re\<close> and \<open>str.strip\<close> agree on it, \<open>\w\<close> is \<open>str.isalnum\<close> plus the
  underscore, and \<open>str.lower\<close> moves only the upper-case letters.
\<close>

definition is_space :: "char \<Rightarrow> bool" where
  "is_space c =
     (let n = (of_char c :: nat)
      in (9 \<le> n \<and> n \<le> 13) \<or> (28 \<le> n \<and> n \<le> 32) \<or> n = 133 \<or> n = 160)"

definition is_word :: "char \<Rightarrow> bool" where
  "is_word c =
     (let n = (of_char c :: nat)
      in (48 \<le> n \<and> n \<le> 57) \<or> (65 \<le> n \<and> n \<le> 90) \<or> n = 95 \<or> (97 \<le> n \<and> n \<le> 122)
         \<or> n = 170 \<or> n = 178 \<or> n = 179 \<or> n = 181 \<or> n = 185 \<or> n = 186
         \<or> (188 \<le> n \<and> n \<le> 190) \<or> (192 \<le> n \<and> n \<le> 214) \<or> (216 \<le> n \<and> n \<le> 246)
         \<or> 248 \<le> n)"

definition lower_char :: "char \<Rightarrow> char" where
  "lower_char c =
     (let n = (of_char c :: nat)
      in if (65 \<le> n \<and> n \<le> 90) \<or> (192 \<le> n \<and> n \<le> 222 \<and> n \<noteq> 215)
         then char_of (n + 32) else c)"

definition lower :: "string \<Rightarrow> string" where
  "lower s = map lower_char s"

text \<open>\<open>s.startswith(p)\<close> and the substring test \<open>p in s\<close>.\<close>

definition starts_with :: "string \<Rightarrow> string \<Rightarrow> bool" where
  "starts_with p s = (take (length p) s = p)"

fun contains :: "string \<Rightarrow> string \<Rightarrow> bool" where
  "contains p [] = (p = [])"
| "contains p (c # cs) = (starts_with p (c # cs) \<or> contains p cs)"

text \<open>\<open>s.find(ch)\<close>: the first index of a character, \<open>None\<close> for Python's \<open>-1\<close>.\<close>

fun find_char :: "char \<Rightarrow> string \<Rightarrow> nat option" where
  "find_char x [] = None"
| "find_char x (c # cs) =
     (if c = x then Some 0 else map_option Suc (find_char x cs))"

text \<open>\<open>s.split('.')\<close>: the pieces between the dots; \<open>cur\<close> is the piece being read.\<close>

fun split_dot :: "string \<Rightarrow> string \<Rightarrow> string list" where
  "split_dot cur [] = [cur]"
| "split_dot cur (c # cs) =
     (if c = CHR ''.'' then cur # split_dot [] cs else split_dot (cur @ [c]) cs)"

section \<open>Values decoded from JSON\<close>

text \<open>
  A Python \<open>float\<close> is a finite double (given by its exact value), an infinity or a
  NaN; \<open>json.loads\<close> produces all of them.
\<close>

datatype pyfloat = Finite rat | PosInf | NegInf | NaN

text \<open>
  What \<open>json.loads\<close> returns. A \<open>dict\<close> is the list of its items in insertion order;
  a key is looked up with \<open>map_of\<close>.
\<close>

datatype json =
    JNull
  | JBool bool
  | JInt int
  | JFloat pyfloat
  | JStr string
  | JArr "json list"
  | JObj "(string \<times> json) list"

datatype py_error =
    AttributeError
  | TypeError
  | OverflowError
  | BindError
  | ValueError
  | RecursionError

text \<open>
  The outcomes of \<open>json.loads\<close> on a text: the decoded value, the
  \<open>JSONDecodeError\<close> that both parsers catch, or another exception, which they do
  not catch (\<open>RecursionError\<close> for nesting beyond the interpreter's limit,
  \<open>ValueError\<close> for an integer literal beyond the digit limit).
\<close>

datatype loaded = Parsed json | DecodeError | Raises py_error

text \<open>Python truth value of a decoded value (\<open>if not metric\<close>, \<open>if parsed\<close>).\<close>

fun truthy :: "json \<Rightarrow> bool" where
  "truthy JNull = False"
| "truthy (JBool b) = b"
| "truthy (JInt i) = (i \<noteq> 0)"
| "truthy (JFloat f) = (f \<noteq> Finite 0)"
| "truthy (JStr s) = (s \<noteq> [])"
| "truthy (JArr xs) = (xs \<noteq> [])"
| "truthy (JObj kvs) = (kvs \<noteq> [])"

text \<open>\<open>obj.get(key, default)\<close>: only a \<open>dict\<close> has the method.\<close>

fun py_get :: "json \<Rightarrow> string \<Rightarrow> json \<Rightarrow> py_error + json" where
  "py_get (JObj kvs) k d = Inr (case map_of kvs k of Some v \<Rightarrow> v | None \<Rightarrow> d)"
| "py_get _ k d = Inl AttributeError"

text \<open>\<open>key in obj\<close> for a string key: membership in a dict's keys or in a list's
  elements, substring of a string, \<open>TypeError\<close> for a value that is no container.\<close>

fun py_in :: "string \<Rightarrow> json \<Rightarrow> py_error + bool" where
  "py_in k (JObj kvs) = Inr (map_of kvs k \<noteq> None)"
| "py_in k (JArr xs) = Inr (JStr k \<in> set xs)"
| "py_in k (JStr s) = Inr (contains k s)"
| "py_in k _ = Inl TypeError"

text \<open>\<open>for dp in data_points\<close>: the elements of a list, the keys of a dict, the
  characters of a string; \<open>TypeError\<close> for a value that cannot be iterated.\<close>

fun py_iter :: "json \<Rightarrow> py_error + json list" where
  "py_iter (JArr xs) = Inr xs"
| "py_iter (JObj kvs) = Inr (map (\<lambda>kv. JStr (fst kv)) kvs)"
| "py_iter (JStr s) = Inr (map (\<lambda>c. JStr [c]) s)"
| "py_iter _ = Inl TypeError"

text \<open>\<open>metric_name.lower()\<close>: only a \<open>str\<close> has the method.\<close>

fun py_lower :: "json \<Rightarrow> py_error + string" where
  "py_lower (JStr s) = Inr (lower s)"
| "py_lower _ = Inl AttributeError"

section \<open>The SQLite store\<close>

text \<open>
  The storage classes a column holds, and the conversion of a Python parameter when a
  statement is executed: a list or a dict cannot be bound, an integer outside 64 bits
  overflows, a NaN is stored as NULL.
\<close>

datatype sqlval = SNull | SInt int | SReal pyfloat | SText string

fun bind_param :: "json \<Rightarrow> py_error + sqlval" where
  "bind_param JNull = Inr SNull"
| "bind_param (JBool b) = Inr (SInt (if b then 1 else 0))"
| "bind_param (JInt i) =
     (if - (2 ^ 63) \<le> i \<and> i < 2 ^ 63 then Inr (SInt i) else Inl OverflowError)"
| "bind_param (JFloat f) = Inr (if f = NaN then SNull else SReal f)"
| "bind_param (JStr s) = Inr (SText s)"
| "bind_param (JArr xs) = Inl BindError"
| "bind_param (JObj kvs) = Inl BindError"

fun bind_params :: "json list \<Rightarrow> py_error + sqlval list" where
  "bind_params [] = Inr []"
| "bind_params (p # ps) =
     (case bind_param p of
        Inl e \<Rightarrow> Inl e
      | Inr v \<Rightarrow> (case bind_params ps of Inl e \<Rightarrow> Inl e | Inr vs \<Rightarrow> Inr (v # vs)))"

text \<open>
  The declared type of a column of \<open>create_database\<close> gives its affinity (\<open>TIMESTAMP\<close>
  is numeric). SQLite converts a value on storing only in the cases listed here; the
  conversion itself (number to text, text to number, integer to real) is the engine's
  and is the parameter \<open>cv\<close>.
\<close>

datatype affinity = TEXT | NUMERIC | INTEGER | REAL

fun store_as :: "(affinity \<Rightarrow> sqlval \<Rightarrow> sqlval) \<Rightarrow> affinity \<Rightarrow> sqlval \<Rightarrow> sqlval" where
  "store_as cv TEXT (SInt i) = cv TEXT (SInt i)"
| "store_as cv TEXT (SReal r) = cv TEXT (SReal r)"
| "store_as cv NUMERIC (SReal r) = cv NUMERIC (SReal r)"
| "store_as cv NUMERIC (SText s) = cv NUMERIC (SText s)"
| "store_as cv INTEGER (SReal r) = cv INTEGER (SReal r)"
| "store_as cv INTEGER (SText s) = cv INTEGER (SText s)"
| "store_as cv REAL (SInt i) = cv REAL (SInt i)"
| "store_as cv REAL (SText s) = cv REAL (SText s)"
| "store_as cv a v = v"

text \<open>
  One record per table of \<open>create_database\<close> and \<open>create_messages_table\<close>. The
  \<open>id\<close> column is the row's position in the list.
\<close>

record session_row =
  s_session_id :: sqlval
  s_user_id :: sqlval
  s_model :: sqlval
  s_started_at :: sqlval
  s_ended_at :: sqlval

record token_row =
  t_session_id :: sqlval
  t_timestamp :: sqlval
  t_model :: sqlval
  t_token_type :: sqlval
  t_value :: sqlval

record cost_row =
  c_session_id :: sqlval
  c_timestamp :: sqlval
  c_model :: sqlval
  c_value :: sqlval

record active_row =
  a_session_id :: sqlval
  a_timestamp :: sqlval
  a_value :: sqlval

record activity_row =
  k_session_id :: sqlval
  k_timestamp :: sqlval
  k_activity_type :: sqlval
  k_value :: sqlval

record raw_row =
  r_timestamp :: sqlval
  r_metric_name :: sqlval
  r_raw_json :: sqlval

record message_row =
  m_session_id :: sqlval
  m_timestamp :: sqlval
  m_role :: sqlval
  m_content_preview :: sqlval
  m_tool_use :: sqlval
  m_usage_input_tokens :: sqlval
  m_usage_output_tokens :: sqlval
  m_usage_cache_read :: sqlval
  m_usage_cache_creation :: sqlval

record db =
  sessions :: "session_row list"
  token_usage :: "token_row list"
  cost_usage :: "cost_row list"
  active_time :: "active_row list"
  code_activity :: "activity_row list"
  raw_metrics :: "raw_row list"
  session_messages :: "message_row list"

text \<open>
  A connection: the committed store, which every reader sees, and the store as this
  connection's open transaction has changed it. \<open>conn.commit()\<close> publishes the
  second; a run that ends without it leaves the first.
\<close>

record conn =
  committed :: db
  working :: db

definition commit :: "conn \<Rightarrow> conn" where
  "commit c = c\<lparr>committed := working c\<rparr>"

datatype outcome = Done conn | Raised py_error conn

section \<open>Storing one metric\<close>

text \<open>
  The statements of \<open>store_metric\<close>. Each binds its parameters in order, raises when
  one cannot be bound, and otherwise adds one row to the working store. A column the
  statement does not name stays NULL.
\<close>

definition insert_raw_metric ::
  "(affinity \<Rightarrow> sqlval \<Rightarrow> sqlval) \<Rightarrow> json list \<Rightarrow> conn \<Rightarrow> outcome" where
  "insert_raw_metric cv params c =
     (case bind_params params of
        Inl e \<Rightarrow> Raised e c
      | Inr vs \<Rightarrow>
          (case vs of
             [ts, name, raw] \<Rightarrow>
               Done (c\<lparr>working := (working c)\<lparr>raw_metrics := raw_metrics (working c) @
                 [\<lparr>r_timestamp = store_as cv NUMERIC ts,
                   r_metric_name = store_as cv TEXT name,
                   r_raw_json = store_as cv TEXT raw\<rparr>]\<rparr>\<rparr>)
           | _ \<Rightarrow> Raised BindError c))"

text \<open>
  \<open>INSERT OR IGNORE INTO sessions\<close>: \<open>session_id\<close> is \<open>UNIQUE\<close>, so the row is
  dropped when a row with the same stored, non-NULL session id exists (NULLs never
  collide); no existing row is touched either way.
\<close>

definition insert_or_ignore_session ::
  "(affinity \<Rightarrow> sqlval \<Rightarrow> sqlval) \<Rightarrow> json list \<Rightarrow> conn \<Rightarrow> outcome" where
  "insert_or_ignore_session cv params c =
     (case bind_params params of
        Inl e \<Rightarrow> Raised e c
      | Inr vs \<Rightarrow>
          (case vs of
             [sid, uid, model, started] \<Rightarrow>
               (let key = store_as cv TEXT sid
                in if key \<noteq> SNull \<and> key \<in> set (map s_session_id (sessions (working c)))
                   then Done c
                   else Done (c\<lparr>working := (working c)\<lparr>sessions := sessions (working c) @
                     [\<lparr>s_session_id = key,
                       s_user_id = store_as cv TEXT uid,
                       s_model = store_as cv TEXT model,
                       s_started_at = store_as cv NUMERIC started,
                       s_ended_at = SNull\<rparr>]\<rparr>\<rparr>))
           | _ \<Rightarrow> Raised BindError c))"

definition insert_token_usage ::
  "(affinity \<Rightarrow> sqlval \<Rightarrow> sqlval) \<Rightarrow> json list \<Rightarrow> conn \<Rightarrow> outcome" where
  "insert_token_usage cv params c =
     (case bind_params params of
        Inl e \<Rightarrow> Raised e c
      | Inr vs \<Rightarrow>
          (case vs of
             [sid, ts, model, token_type, v] \<Rightarrow>
               Done (c\<lparr>working := (working c)\<lparr>token_usage := token_usage (working c) @
                 [\<lparr>t_session_id = store_as cv TEXT sid,
                   t_timestamp = store_as cv NUMERIC ts,
                   t_model = store_as cv TEXT model,
                   t_token_type = store_as cv TEXT token_type,
                   t_value = store_as cv INTEGER v\<rparr>]\<rparr>\<rparr>)
           | _ \<Rightarrow> Raised BindError c))"

definition insert_cost_usage ::
  "(affinity \<Rightarrow> sqlval \<Rightarrow> sqlval) \<Rightarrow> json list \<Rightarrow> conn \<Rightarrow> outcome" where
  "insert_cost_usage cv params c =
     (case bind_params params of
        Inl e \<Rightarrow> Raised e c
      | Inr vs \<Rightarrow>
          (case vs of
             [sid, ts, model, v] \<Rightarrow>
               Done (c\<lparr>working := (working c)\<lparr>cost_usage := cost_usage (working c) @
                 [\<lparr>c_session_id = store_as cv TEXT sid,
                   c_timestamp = store_as cv NUMERIC ts,
                   c_model = store_as cv TEXT model,
                   c_value = store_as cv REAL v\<rparr>]\<rparr>\<rparr>)
           | _ \<Rightarrow> Raised BindError c))"

definition insert_active_time ::
  "(affinity \<Rightarrow> sqlval \<Rightarrow> sqlval) \<Rightarrow> json list \<Rightarrow> conn \<Rightarrow> outcome" where
  "insert_active_time cv params c =
     (case bind_params params of
        Inl e \<Rightarrow> Raised e c
      | Inr vs \<Rightarrow>
          (case vs of
             [sid, ts, v] \<Rightarrow>
               Done (c\<lparr>working := (working c)\<lparr>active_time := active_time (working c) @
                 [\<lparr>a_session_id = store_as cv TEXT sid,
                   a_timestamp = store_as cv NUMERIC ts,
                   a_value = store_as cv REAL v\<rparr>]\<rparr>\<rparr>)
           | _ \<Rightarrow> Raised BindError c))"

definition insert_code_activity ::
  "(affinity \<Rightarrow> sqlval \<Rightarrow> sqlval) \<Rightarrow> json list \<Rightarrow> conn \<Rightarrow> outcome" where
  "insert_code_activity cv params c =
     (case bind_params params of
        Inl e \<Rightarrow> Raised e c
      | Inr vs \<Rightarrow>
          (case vs of
             [sid, ts, activity_type, v] \<Rightarrow>
               Done (c\<lparr>working := (working c)\<lparr>code_activity := code_activity (working c) @
                 [\<lparr>k_session_id = store_as cv TEXT sid,
                   k_timestamp = store_as cv NUMERIC ts,
                   k_activity_type = store_as cv TEXT activity_type,
                   k_value = store_as cv INTEGER v\<rparr>]\<rparr>\<rparr>)
           | _ \<Rightarrow> Raised BindError c))"

text \<open>
  \<open>metric_name.split('.')[-1] if '.' in metric_name else metric_name\<close>
\<close>

definition activity_type_of :: "string \<Rightarrow> string" where
  "activity_type_of metric_name =
     (if contains ''.'' metric_name then last (split_dot [] metric_name) else metric_name)"

text \<open>
  The \<open>if\<close>/\<open>elif\<close> chain of \<open>store_metric\<close> on the lower-cased metric name, for one
  data point whose session id, model, attributes and value are resolved.
\<close>

definition store_usage ::
  "(affinity \<Rightarrow> sqlval \<Rightarrow> sqlval) \<Rightarrow> string \<Rightarrow> json \<Rightarrow> json \<Rightarrow> json \<Rightarrow> json \<Rightarrow> json \<Rightarrow> conn
     \<Rightarrow> outcome" where
  "store_usage cv timestamp metric_name attrs session_id model v c =
     (case py_lower metric_name of
        Inl e \<Rightarrow> Raised e c
      | Inr lname \<Rightarrow>
          if contains ''token'' lname then
            (case py_get attrs ''type'' (JStr ''unknown'') of
               Inl e \<Rightarrow> Raised e c
             | Inr token_type \<Rightarrow>
                 insert_token_usage cv [session_id, JStr timestamp, model, token_type, v] c)
          else if contains ''cost'' lname then
            insert_cost_usage cv [session_id, JStr timestamp, model, v] c
          else if contains ''active_time'' lname then
            insert_active_time cv [session_id, JStr timestamp, v] c
          else if list_ex (\<lambda>x. contains x lname) [''commit'', ''pull_request'', ''lines_of_code''] then
            (case metric_name of
               JStr n \<Rightarrow>
                 insert_code_activity cv
                   [session_id, JStr timestamp, JStr (activity_type_of n), v] c
             | _ \<Rightarrow> Raised AttributeError c)
          else Done c)"

text \<open>The body of \<open>for dp in data_points\<close>.\<close>

definition store_data_point ::
  "(affinity \<Rightarrow> sqlval \<Rightarrow> sqlval) \<Rightarrow> string \<Rightarrow> json \<Rightarrow> conn \<Rightarrow> json \<Rightarrow> outcome" where
  "store_data_point cv timestamp metric_name c dp =
     (case py_get dp ''attributes'' (JObj []) of
        Inl e \<Rightarrow> Raised e c
      | Inr attrs \<Rightarrow>
     (case py_get attrs ''session_id'' (JStr ''unknown'') of
        Inl e \<Rightarrow> Raised e c
      | Inr sid_alias \<Rightarrow>
     (case py_get attrs ''session.id'' sid_alias of
        Inl e \<Rightarrow> Raised e c
      | Inr session_id \<Rightarrow>
     (case py_get attrs ''user_id'' (JStr ''unknown'') of
        Inl e \<Rightarrow> Raised e c
      | Inr uid_alias \<Rightarrow>
     (case py_get attrs ''user.id'' uid_alias of
        Inl e \<Rightarrow> Raised e c
      | Inr user_id \<Rightarrow>
     (case py_get attrs ''model'' (JStr ''unknown'') of
        Inl e \<Rightarrow> Raised e c
      | Inr model \<Rightarrow>
     (case py_get dp ''value'' (JInt 0) of
        Inl e \<Rightarrow> Raised e c
      | Inr v \<Rightarrow>
     (case insert_or_ignore_session cv [session_id, user_id, model, JStr timestamp] c of
        Raised e c1 \<Rightarrow> Raised e c1
      | Done c1 \<Rightarrow>
          store_usage cv timestamp metric_name attrs session_id model v c1))))))))"

fun store_data_points ::
  "(affinity \<Rightarrow> sqlval \<Rightarrow> sqlval) \<Rightarrow> string \<Rightarrow> json \<Rightarrow> conn \<Rightarrow> json list \<Rightarrow> outcome" where
  "store_data_points cv timestamp metric_name c [] = Done c"
| "store_data_points cv timestamp metric_name c (dp # dps) =
     (case store_data_point cv timestamp metric_name c dp of
        Raised e c1 \<Rightarrow> Raised e c1
      | Done c1 \<Rightarrow> store_data_points cv timestamp metric_name c1 dps)"

text \<open>
  \<open>store_metric(conn, metric, timestamp=None)\<close>. \<open>dumps\<close> is \<open>json.dumps\<close> and \<open>now\<close>
  is what \<open>datetime.now().isoformat()\<close> returns at this call. An exception leaves the
  function before \<open>conn.commit()\<close>.
\<close>

definition store_metric ::
  "(json \<Rightarrow> string) \<Rightarrow> (affinity \<Rightarrow> sqlval \<Rightarrow> sqlval) \<Rightarrow> string \<Rightarrow> string option \<Rightarrow> conn \<Rightarrow> json
     \<Rightarrow> outcome" where
  "store_metric dumps cv now timestamp c metric =
     (if \<not> truthy metric then Done c
      else
     (case py_in ''descriptor'' metric of
        Inl e \<Rightarrow> Raised e c
      | Inr has_descriptor \<Rightarrow>
          if \<not> has_descriptor then Done c
          else
     (let ts = (case timestamp of None \<Rightarrow> now | Some t \<Rightarrow> if t = [] then now else t)
      in
     (case py_get metric ''descriptor'' (JObj []) of
        Inl e \<Rightarrow> Raised e c
      | Inr descriptor \<Rightarrow>
     (case py_get descriptor ''name'' (JStr []) of
        Inl e \<Rightarrow> Raised e c
      | Inr metric_name \<Rightarrow>
     (case py_get metric ''dataPoints'' (JArr []) of
        Inl e \<Rightarrow> Raised e c
      | Inr data_points \<Rightarrow>
     (case insert_raw_metric cv [JStr ts, metric_name, JStr (dumps metric)] c of
        Raised e c1 \<Rightarrow> Raised e c1
      | Done c1 \<Rightarrow>
     (case py_iter data_points of
        Inl e \<Rightarrow> Raised e c1
      | Inr dps \<Rightarrow>
     (case store_data_points cv ts metric_name c1 dps of
        Raised e c2 \<Rightarrow> Raised e c2
      | Done c2 \<Rightarrow> Done (commit c2))))))))))"

text \<open>
  The loop \<open>for metric in metrics: store_metric(conn, metric)\<close> of \<open>parse_log_file\<close>;
  \<open>clock\<close> lists the clock readings of the calls that remain. An exception ends the run.
\<close>

fun store_metrics ::
  "(json \<Rightarrow> string) \<Rightarrow> (affinity \<Rightarrow> sqlval \<Rightarrow> sqlval) \<Rightarrow> (nat \<Rightarrow> string) \<Rightarrow> nat \<Rightarrow> conn \<Rightarrow> json list
     \<Rightarrow> outcome" where
  "store_metrics dumps cv clock k c [] = Done c"
| "store_metrics dumps cv clock k c (m # ms) =
     (case store_metric dumps cv (clock k) None c m of
        Raised e c1 \<Rightarrow> Raised e c1
      | Done c1 \<Rightarrow> store_metrics dumps cv clock (Suc k) c1 ms)"

definition conn_of :: "outcome \<Rightarrow> conn" where
  "conn_of r = (case r of Done c \<Rightarrow> c | Raised e c \<Rightarrow> c)"

text \<open>A store whose tables are all empty, as a new database file has them.\<close>

definition empty_db :: db where
  "empty_db =
     \<lparr>sessions = [], token_usage = [], cost_usage = [], active_time = [], code_activity = [],
      raw_metrics = [], session_messages = []\<rparr>"

section \<open>The lenient object parser\<close>

text \<open>\<open>block.replace("'", '"')\<close>\<close>

definition replace_quotes :: "string \<Rightarrow> string" where
  "replace_quotes s = map (\<lambda>c. if c = CHR 0x27 then CHR 0x22 else c) s"

text \<open>
  \<open>re.sub(r'(\w+):', r'"\1":', cleaned)\<close>. A match is a run of word characters and
  the colon after it; the scan is leftmost and \<open>\w+\<close> is greedy, so a match starts
  where a run starts and takes the whole run. \<open>w\<close> is the run read so far: it is
  quoted when a colon ends it and copied otherwise.
\<close>

fun quote_keys :: "string \<Rightarrow> string \<Rightarrow> string" where
  "quote_keys w [] = w"
| "quote_keys w (c # cs) =
     (if is_word c then quote_keys (w @ [c]) cs
      else if c = CHR '':'' \<and> w \<noteq> [] then [CHR 0x22] @ w @ [CHR 0x22, CHR '':''] @ quote_keys [] cs
      else w @ c # quote_keys [] cs)"

text \<open>
  \<open>re.sub(r',(\s*[}\]])', r'\1', cleaned)\<close>. A match is a comma, the white space after
  it and a closing brace or bracket; it is replaced by its group, that is, the comma is
  dropped. The group holds no comma, so scanning on behind the comma gives the same text
  as scanning on behind the match.
\<close>

definition closes :: "string \<Rightarrow> bool" where
  "closes s = (case dropWhile is_space s of [] \<Rightarrow> False | d # _ \<Rightarrow> d = CHR ''}'' \<or> d = CHR '']'')"

fun strip_trailing_commas :: "string \<Rightarrow> string" where
  "strip_trailing_commas [] = []"
| "strip_trailing_commas (c # cs) =
     (if c = CHR '','' \<and> closes cs then strip_trailing_commas cs
      else c # strip_trailing_commas cs)"

text \<open>
  \<open>parse_metric_block\<close>. \<open>loads\<close> is \<open>json.loads\<close>. The \<open>except\<close> clause names
  \<open>json.JSONDecodeError\<close> only: that failure is the result \<open>None\<close>, every other
  exception of \<open>json.loads\<close> leaves the function.
\<close>

definition parse_metric_block :: "(string \<Rightarrow> loaded) \<Rightarrow> string \<Rightarrow> py_error + json option" where
  "parse_metric_block loads block =
     (let cleaned = replace_quotes block;
          cleaned = quote_keys [] cleaned;
          cleaned = strip_trailing_commas cleaned
      in case loads cleaned of
           Parsed v \<Rightarrow> Inr (Some v)
         | DecodeError \<Rightarrow> Inr None
         | Raises e \<Rightarrow> Inl e)"

section \<open>The block extractor\<close>

text \<open>The pattern \<open>\{\s*descriptor:\<close> matches at the head of \<open>s\<close>.\<close>

definition marker_at :: "string \<Rightarrow> bool" where
  "marker_at s =
     (case s of [] \<Rightarrow> False
      | c # r \<Rightarrow> c = CHR ''{'' \<and> starts_with ''descriptor:'' (dropWhile is_space r))"

text \<open>
  \<open>re.split(r'(?=\{\s*descriptor:)', log_content)\<close>: the text is cut in front of every
  position where the pattern matches, also in front of position 0, which gives an empty
  first piece. \<open>cur\<close> is the piece read so far.
\<close>

fun re_split :: "string \<Rightarrow> string \<Rightarrow> string list" where
  "re_split cur [] = [cur]"
| "re_split cur (c # cs) =
     (if marker_at (c # cs) then cur # re_split [c] cs else re_split (cur @ [c]) cs)"

text \<open>
  The brace counter of \<open>extract_metrics_from_log\<close>, scanning from index \<open>i\<close> with the
  count \<open>n\<close>: the value of \<open>end\<close> when the count returns to zero, \<open>None\<close> when the loop
  runs to the end of the block.
\<close>

fun scan_braces :: "int \<Rightarrow> nat \<Rightarrow> string \<Rightarrow> nat option" where
  "scan_braces n i [] = None"
| "scan_braces n i (c # cs) =
     (if c = CHR ''{'' then scan_braces (n + 1) (i + 1) cs
      else if c = CHR ''}'' then
        (if n - 1 = 0 then Some (i + 1) else scan_braces (n - 1) (i + 1) cs)
      else scan_braces n (i + 1) cs)"

text \<open>
  The body of the loop over the blocks up to \<open>metric_str\<close>: \<open>None\<close> when the block is
  passed over, else the text handed to \<open>parse_metric_block\<close>. \<open>end\<close> stays at
  \<open>start\<close> when the braces do not balance, and the text is empty then.
\<close>

definition block_span :: "string \<Rightarrow> string option" where
  "block_span block =
     (if contains ''descriptor:'' block then
        (case find_char CHR ''{'' block of
           None \<Rightarrow> None
         | Some start \<Rightarrow>
             (let end = (case scan_braces 0 start (drop start block) of
                           Some e \<Rightarrow> e | None \<Rightarrow> start)
              in Some (take (end - start) (drop start block))))
      else None)"

text \<open>
  The loop over the blocks: the metrics of the first block, then those of the blocks
  after it. An exception that leaves \<open>parse_metric_block\<close> ends the loop and the
  function, and no list is returned.
\<close>

fun process_blocks :: "(string \<Rightarrow> loaded) \<Rightarrow> string list \<Rightarrow> py_error + json list" where
  "process_blocks loads [] = Inr []"
| "process_blocks loads (block # blocks) =
     (case block_span block of
        None \<Rightarrow> process_blocks loads blocks
      | Some metric_str \<Rightarrow>
          (case parse_metric_block loads metric_str of
             Inl e \<Rightarrow> Inl e
           | Inr None \<Rightarrow> process_blocks loads blocks
           | Inr (Some parsed) \<Rightarrow>
               if truthy parsed then
                 (case process_blocks loads blocks of
                    Inl e \<Rightarrow> Inl e
                  | Inr metrics \<Rightarrow> Inr (parsed # metrics))
               else process_blocks loads blocks))"

definition extract_metrics_from_log :: "(string \<Rightarrow> loaded) \<Rightarrow> string \<Rightarrow> py_error + json list" where
  "extract_metrics_from_log loads log_content = process_blocks loads (re_split [] log_content)"

text \<open>The texts that one run of the extractor hands to the parser, in order.\<close>

definition metric_strs :: "string \<Rightarrow> string list" where
  "metric_strs log_content = List.map_filter block_span (re_split [] log_content)"

text \<open>
  \<open>create_database\<close> opens the store \<open>d\<close>, creates what is missing and commits;
  \<open>parse_log_file\<close> then extracts the metrics and stores every one of them. An
  exception that leaves the extraction ends the run before anything is stored.
\<close>

definition create_database :: "db \<Rightarrow> conn" where
  "create_database d = commit \<lparr>committed = d, working = d\<rparr>"

definition parse_log_file ::
  "(string \<Rightarrow> loaded) \<Rightarrow> (json \<Rightarrow> string) \<Rightarrow> (affinity \<Rightarrow> sqlval \<Rightarrow> sqlval) \<Rightarrow> (nat \<Rightarrow> string)
     \<Rightarrow> string \<Rightarrow> db \<Rightarrow> outcome" where
  "parse_log_file loads dumps cv clock content d =
     (let c = create_database d
      in case extract_metrics_from_log loads content of
           Inl e \<Rightarrow> Raised e c
         | Inr metrics \<Rightarrow> store_metrics dumps cv clock 0 c metrics)"

section \<open>The transcript merger\<close>



record usage_info =
  input_tokens :: json
  output_tokens :: json
  cache_read :: json
  cache_creation :: json


text \<open>
  \<open>str(x)\<close>: a string is itself; for every other value \<open>str\<close> is \<open>repr\<close>, which is
  the parameter \<open>py_repr\<close>.
\<close>

definition py_str :: "(json \<Rightarrow> string) \<Rightarrow> json \<Rightarrow> string" where
  "py_str py_repr x = (case x of JStr s \<Rightarrow> s | _ \<Rightarrow> py_repr x)"

text \<open>
  The branch \<open>if isinstance(content, list)\<close> of \<open>merge_data\<close>: the \<open>text\<close> of the
  first element when that is a dict, else its string form, and the empty string for
  an empty list. A value that is no list is left alone.
\<close>

fun first_content :: "(json \<Rightarrow> string) \<Rightarrow> json \<Rightarrow> json" where
  "first_content py_repr (JArr []) = JStr []"
| "first_content py_repr (JArr (JObj kvs # rest)) =
     (case map_of kvs ''text'' of Some t \<Rightarrow> t | None \<Rightarrow> JStr (py_str py_repr (JObj kvs)))"
| "first_content py_repr (JArr (x # rest)) = JStr (py_str py_repr x)"
| "first_content py_repr content = content"

text \<open>
  \<open>content[:200] if content else ''\<close>: a string or a list can be sliced; a number or
  a dict cannot.
\<close>

fun content_preview :: "json \<Rightarrow> py_error + json" where
  "content_preview (JStr s) = Inr (JStr (take 200 s))"
| "content_preview (JArr xs) = Inr (if xs = [] then JStr [] else JArr (take 200 xs))"
| "content_preview content = (if truthy content then Inl TypeError else Inr (JStr []))"







section \<open>The cache metrics of the report\<close>





section \<open>The claims in their own words\<close>



text \<open>
  The spans as the specification words them: for every position of the text where the
  marker matches, the text from that brace to the brace that balances it, and nothing
  for a marker whose brace is never balanced.
\<close>

fun marker_spans_spec :: "string \<Rightarrow> string list" where
  "marker_spans_spec [] = []"
| "marker_spans_spec (c # cs) =
     (if marker_at (c # cs) then
        (case scan_braces 0 0 (c # cs) of
           Some e \<Rightarrow> take e (c # cs) # marker_spans_spec cs
         | None \<Rightarrow> marker_spans_spec cs)
      else marker_spans_spec cs)"

text \<open>
  The text in front of the first marker, and the condition that every marker's
  balancing brace comes before the next marker (no marker inside a balanced span).
\<close>

fun until_marker :: "string \<Rightarrow> string" where
  "until_marker [] = []"
| "until_marker (c # cs) = (if marker_at (c # cs) then [] else c # until_marker cs)"

fun spans_apart :: "string \<Rightarrow> bool" where
  "spans_apart [] = True"
| "spans_apart (c # cs) =
     ((if marker_at (c # cs) then
         (case scan_braces 0 0 (c # cs) of
            Some e \<Rightarrow> e \<le> Suc (length (until_marker cs))
          | None \<Rightarrow> True)
       else True) \<and> spans_apart cs)"



text \<open>
  The metrics of a list of spans: the parses that are truthy, in the order of the
  spans, and no list when the parser raises on one of them.
\<close>

fun parse_spans :: "(string \<Rightarrow> loaded) \<Rightarrow> string list \<Rightarrow> py_error + json list" where
  "parse_spans loads [] = Inr []"
| "parse_spans loads (s # ss) =
     (case parse_metric_block loads s of
        Inl e \<Rightarrow> Inl e
      | Inr r \<Rightarrow>
          (case parse_spans loads ss of
             Inl e \<Rightarrow> Inl e
           | Inr ms \<Rightarrow> Inr (filter truthy (case r of None \<Rightarrow> [] | Some v \<Rightarrow> [v]) @ ms)))"










section \<open>Example inputs\<close>

text \<open>
  A log that holds one metric block, the JSON text that the lenient rewriting makes of
  it, the value that a strict parse of that text returns, and a \<open>json.loads\<close> that
  knows this one text.
\<close>

definition token_log :: string where
  "token_log = ''{descriptor: {name: 'claude_code.token.usage'}, dataPoints: [{attributes: {type: 'output', 'session.id': 's1'}, value: 42}]}''"

definition token_json :: string where
  \<open>token_json = ''{"descriptor": {"name": "claude_code.token.usage"}, "dataPoints": [{"attributes": {"type": "output", "session.id": "s1"}, "value": 42}]}''\<close>

definition token_metric :: json where
  "token_metric =
     JObj [(''descriptor'', JObj [(''name'', JStr ''claude_code.token.usage'')]),
           (''dataPoints'', JArr [JObj
              [(''attributes'', JObj [(''type'', JStr ''output''), (''session.id'', JStr ''s1'')]),
               (''value'', JInt 42)]])]"

definition token_loads :: "string \<Rightarrow> loaded" where
  "token_loads s = (if s = token_json then Parsed token_metric else DecodeError)"

text \<open>
  The same metric with the value written among the attributes of the data point, and
  no value of the data point itself.
\<close>

definition token_metric_value_in_attributes :: json where
  "token_metric_value_in_attributes =
     JObj [(''descriptor'', JObj [(''name'', JStr ''claude_code.token.usage'')]),
           (''dataPoints'', JArr [JObj
              [(''attributes'', JObj [(''type'', JStr ''output''), (''value'', JInt 42),
                                     (''session.id'', JStr ''s1'')])]])]"

text \<open>A clock that always reads the same instant, and an engine that converts nothing.\<close>

definition fixed_clock :: "nat \<Rightarrow> string" where
  "fixed_clock k = ''2024-01-01T00:00:00''"

definition no_conversion :: "affinity \<Rightarrow> sqlval \<Rightarrow> sqlval" where
  "no_conversion a v = v"

text \<open>A \<open>json.loads\<close> that knows the text \<open>{"name": "foo", "count": 3}\<close>.\<close>

definition foo_loads :: "string \<Rightarrow> loaded" where
  \<open>foo_loads s =
     (if s = ''{"name": "foo", "count": 3}''
      then Parsed (JObj [(''name'', JStr ''foo''), (''count'', JInt 3)]) else DecodeError)\<close>

text \<open>
  A metric of the same name whose data point has an object for its value, as a
  histogram has; SQLite cannot bind it.
\<close>

definition histogram_metric :: json where
  "histogram_metric =
     JObj [(''descriptor'', JObj [(''name'', JStr ''claude_code.token.usage'')]),
           (''dataPoints'', JArr [JObj
              [(''attributes'', JObj [(''type'', JStr ''output''), (''session.id'', JStr ''s1'')]),
               (''value'', JObj [(''sum'', JInt 7)])]])]"

text \<open>
  A transcript entry whose content starts with a tool call and goes on with a text
  block, and a \<open>repr\<close> that gives what Python prints for the tool call.
\<close>

definition tool_entry :: json where
  "tool_entry =
     JObj [(''role'', JStr ''assistant''),
           (''content'', JArr [JObj [(''type'', JStr ''tool_use''), (''name'', JStr ''Bash'')],
                               JObj [(''type'', JStr ''text''), (''text'', JStr ''hello'')]]),
           (''usage'', JObj [(''input_tokens'', JInt 10), (''output_tokens'', JInt 5)])]"


text \<open>
  The transcript line of that entry, a line that holds the number 5, and a
  \<open>json.loads\<close> that knows these two lines.
\<close>

definition tool_line :: string where
  \<open>tool_line = ''{"role": "assistant", "content": [{"type": "tool_use", "name": "Bash"}, {"type": "text", "text": "hello"}], "usage": {"input_tokens": 10, "output_tokens": 5}}''\<close>


text \<open>
  An object that holds arrays nested \<open>nesting\<close> deep, as the log writes it and as
  JSON. The scanner of \<open>json.loads\<close> calls itself once for every level, and at this
  depth the interpreter ends the call with \<open>RecursionError\<close>, which is no
  \<open>JSONDecodeError\<close>. \<open>deep_loads\<close> is a \<open>json.loads\<close> that knows this text, the
  transcript line above and the token metric.
\<close>

definition nesting :: nat where
  "nesting = 100000"

definition deep_span :: string where
  "deep_span = ''{descriptor: ['' @ replicate nesting CHR ''['' @ replicate nesting CHR '']'' @ '']}''"

definition deep_json :: string where
  \<open>deep_json = ''{"descriptor": ['' @ replicate nesting CHR ''['' @ replicate nesting CHR '']'' @ '']}''\<close>

definition deep_loads :: "string \<Rightarrow> loaded" where
  "deep_loads s =
     (if s = deep_json then Raises RecursionError
      else if s = tool_line then Parsed tool_entry
      else token_loads s)"

text \<open>
  The token log between other text: braces that belong to no metric in front of it and
  behind it, and a last marker whose brace is never closed.
\<close>

definition noisy_log :: string where
  "noisy_log = ''startup {pid: 1} '' @ token_log @ '' } tail {descriptor: cut off''"

section \<open>Facts about the string functions\<close>





section \<open>Storing a metric\<close>

text \<open>
  Claim C10. A parsed metric whose descriptor is an object (with a name that SQLite can
  bind: a string, a number, a boolean, null, or no name at all) and whose list of data
  points is empty or absent is stored as exactly one row of \<open>raw_metrics\<close>, which is
  committed; the tables \<open>sessions\<close>, \<open>token_usage\<close>, \<open>cost_usage\<close>,
  \<open>active_time\<close>, \<open>code_activity\<close> and \<open>session_messages\<close> stay as they were.
\<close>

theorem store_metric_without_data_points:
  assumes "map_of kvs ''descriptor'' = Some (JObj d)"
    and "py_get (JObj kvs) ''dataPoints'' (JArr []) = Inr (JArr [])"
    and "bind_param (case map_of d ''name'' of Some v \<Rightarrow> v | None \<Rightarrow> JStr []) = Inr name"
  shows "\<exists>c' row.
      store_metric dumps cv now timestamp c (JObj kvs) = Done c'
    \<and> committed c' = working c'
    \<and> raw_metrics (working c') = raw_metrics (working c) @ [row]
    \<and> r_metric_name row = store_as cv TEXT name
    \<and> r_raw_json row = SText (dumps (JObj kvs))
    \<and> sessions (working c') = sessions (working c)
    \<and> token_usage (working c') = token_usage (working c)
    \<and> cost_usage (working c') = cost_usage (working c)
    \<and> active_time (working c') = active_time (working c)
    \<and> code_activity (working c') = code_activity (working c)
    \<and> session_messages (working c') = session_messages (working c)"
proof -
  from assms(1) have ne: "kvs \<noteq> []" by auto
  from assms(2) have dp:
    "(case map_of kvs ''dataPoints'' of None \<Rightarrow> JArr [] | Some v \<Rightarrow> v) = JArr []"
    by simp
  show ?thesis
    using assms(1,3) ne dp
    by (simp add: store_metric_def insert_raw_metric_def commit_def Let_def split: option.splits)
qed

theorem store_metric_without_data_points_witness:
  "\<exists>c' row.
      store_metric (\<lambda>m. []) no_conversion ''2024-01-01T00:00:00'' None (create_database empty_db)
        (JObj [(''descriptor'', JObj [(''name'', JStr ''foo.bar.baz'')]),
               (''dataPoints'', JArr [])]) = Done c'
    \<and> committed c' = working c'
    \<and> raw_metrics (working c') = [row]
    \<and> r_metric_name row = SText ''foo.bar.baz''
    \<and> sessions (working c') = []
    \<and> token_usage (working c') = []
    \<and> cost_usage (working c') = []
    \<and> active_time (working c') = []
    \<and> code_activity (working c') = []"
  using store_metric_without_data_points
    [where kvs = "[(''descriptor'', JObj [(''name'', JStr ''foo.bar.baz'')]),
                   (''dataPoints'', JArr [])]"
       and d = "[(''name'', JStr ''foo.bar.baz'')]" and name = "SText ''foo.bar.baz''"
       and dumps = "\<lambda>m. []" and cv = no_conversion and now = "''2024-01-01T00:00:00''"
       and timestamp = None and c = "create_database empty_db"]
  by (fastforce simp add: create_database_def commit_def empty_db_def)

text \<open>
  Claim C8. When a row with the same stored, non-NULL session id is in the session
  table, \<open>INSERT OR IGNORE\<close> with that session id and any user id, model and timestamp
  changes nothing at all: every session row, with its \<open>started_at\<close>, is as before.
\<close>

theorem session_upsert_keeps_existing:
  assumes "bind_param sid = Inr v"
    and "store_as cv TEXT v \<noteq> SNull"
    and "store_as cv TEXT v \<in> set (map s_session_id (sessions (working c)))"
  shows "conn_of (insert_or_ignore_session cv [sid, uid, model, started_at] c) = c"
  using assms
  by (simp add: insert_or_ignore_session_def conn_of_def Let_def split: sum.splits)

theorem session_upsert_keeps_existing_witness:
  "conn_of (insert_or_ignore_session no_conversion
      [JStr ''s1'', JStr ''user2'', JStr ''model2'', JStr ''2024-02-02T00:00:00'']
      \<lparr>committed = empty_db,
       working = empty_db\<lparr>sessions :=
         [\<lparr>s_session_id = SText ''s1'', s_user_id = SText ''user1'', s_model = SText ''model1'',
           s_started_at = SText ''2024-01-01T00:00:00'', s_ended_at = SNull\<rparr>]\<rparr>\<rparr>)
   = \<lparr>committed = empty_db,
       working = empty_db\<lparr>sessions :=
         [\<lparr>s_session_id = SText ''s1'', s_user_id = SText ''user1'', s_model = SText ''model1'',
           s_started_at = SText ''2024-01-01T00:00:00'', s_ended_at = SNull\<rparr>]\<rparr>\<rparr>"
  using session_upsert_keeps_existing
    [where sid = "JStr ''s1''" and v = "SText ''s1''" and cv = no_conversion
       and uid = "JStr ''user2''" and model = "JStr ''model2''"
       and started_at = "JStr ''2024-02-02T00:00:00''"
       and c = "\<lparr>committed = empty_db,
       working = empty_db\<lparr>sessions :=
         [\<lparr>s_session_id = SText ''s1'', s_user_id = SText ''user1'', s_model = SText ''model1'',
           s_started_at = SText ''2024-01-01T00:00:00'', s_ended_at = SNull\<rparr>]\<rparr>\<rparr>"]
  by simp



section \<open>Ingesting one token-usage block\<close>

lemma token_usage_name_has_token: "contains ''token'' (lower ''claude_code.token.usage'')"
  by code_simp

lemma only_type_and_session_id:
  assumes only: "dom (map_of akvs) = {''type'', ''session.id''}"
  shows "map_of akvs ''user.id'' = None" "map_of akvs ''user_id'' = None"
    "map_of akvs ''model'' = None" "map_of akvs ''session_id'' = None"
proof -
  have "''user.id'' \<notin> dom (map_of akvs)" "''user_id'' \<notin> dom (map_of akvs)"
    "''model'' \<notin> dom (map_of akvs)" "''session_id'' \<notin> dom (map_of akvs)"
    unfolding only by simp_all
  then show "map_of akvs ''user.id'' = None" "map_of akvs ''user_id'' = None"
    "map_of akvs ''model'' = None" "map_of akvs ''session_id'' = None"
    by (simp_all add: domIff)
qed

lemma store_token_data_point:
  assumes a: "map_of pkvs ''attributes'' = Some (JObj akvs)"
    and v: "map_of pkvs ''value'' = Some (JInt 42)"
    and ty: "map_of akvs ''type'' = Some (JStr ''output'')"
    and sid: "map_of akvs ''session.id'' = Some (JStr ''s1'')"
    and only: "dom (map_of akvs) = {''type'', ''session.id''}"
  shows "store_data_point cv ts (JStr ''claude_code.token.usage'') c (JObj pkvs) =
    Done (c\<lparr>working := (working c)\<lparr>
      sessions := (if SText ''s1'' \<in> set (map s_session_id (sessions (working c)))
        then sessions (working c)
        else sessions (working c) @
           [\<lparr>s_session_id = SText ''s1'', s_user_id = SText ''unknown'',
             s_model = SText ''unknown'', s_started_at = store_as cv NUMERIC (SText ts),
             s_ended_at = SNull\<rparr>]),
      token_usage := token_usage (working c) @
        [\<lparr>t_session_id = SText ''s1'', t_timestamp = store_as cv NUMERIC (SText ts),
          t_model = SText ''unknown'', t_token_type = SText ''output'', t_value = SInt 42\<rparr>]\<rparr>\<rparr>)"
  using a v ty sid only_type_and_session_id[OF only] token_usage_name_has_token
  by (simp add: store_data_point_def insert_or_ignore_session_def
        store_usage_def insert_token_usage_def Let_def)

text \<open>
  Claim C1, as amended. A run of \<open>parse_log_file\<close> over a log from which the extractor
  returns one metric named \<open>claude_code.token.usage\<close>, whose one data point has the
  value 42 and carries the attributes \<open>type = output\<close> and \<open>session.id = s1\<close> and no
  others, ends normally and commits exactly one new row of \<open>token_usage\<close>, with token
  type \<open>output\<close>, value 42 and session \<open>s1\<close>; a session row for \<open>s1\<close> is in the store
  afterwards, inserted by this run when there was none; no other usage table changes.
\<close>

theorem token_usage_metric_stored:
  assumes ex: "extract_metrics_from_log loads content = Inr [JObj mkvs]"
    and d: "map_of mkvs ''descriptor'' = Some (JObj dkvs)"
    and n: "map_of dkvs ''name'' = Some (JStr ''claude_code.token.usage'')"
    and ps: "map_of mkvs ''dataPoints'' = Some (JArr [JObj pkvs])"
    and a: "map_of pkvs ''attributes'' = Some (JObj akvs)"
    and v: "map_of pkvs ''value'' = Some (JInt 42)"
    and ty: "map_of akvs ''type'' = Some (JStr ''output'')"
    and sid: "map_of akvs ''session.id'' = Some (JStr ''s1'')"
    and only: "dom (map_of akvs) = {''type'', ''session.id''}"
  shows "\<exists>c'.
      parse_log_file loads dumps cv clock content d0 = Done c'
    \<and> committed c' = working c'
    \<and> token_usage (committed c') = token_usage d0 @
        [\<lparr>t_session_id = SText ''s1'', t_timestamp = store_as cv NUMERIC (SText (clock 0)),
          t_model = SText ''unknown'', t_token_type = SText ''output'', t_value = SInt 42\<rparr>]
    \<and> SText ''s1'' \<in> set (map s_session_id (sessions (committed c')))
    \<and> (SText ''s1'' \<notin> set (map s_session_id (sessions d0)) \<longrightarrow>
         sessions (committed c') = sessions d0 @
           [\<lparr>s_session_id = SText ''s1'', s_user_id = SText ''unknown'',
             s_model = SText ''unknown'', s_started_at = store_as cv NUMERIC (SText (clock 0)),
             s_ended_at = SNull\<rparr>])
    \<and> cost_usage (committed c') = cost_usage d0
    \<and> active_time (committed c') = active_time d0
    \<and> code_activity (committed c') = code_activity d0"
proof -
  from d have ne: "mkvs \<noteq> []" by auto
  note step = store_token_data_point[OF a v ty sid only]
  show ?thesis
    using d n ps ne
    by (simp add: parse_log_file_def ex create_database_def store_metric_def
        insert_raw_metric_def step commit_def Let_def)
qed

lemma token_log_extracted: "extract_metrics_from_log token_loads token_log = Inr [token_metric]"
  by code_simp

theorem token_usage_metric_stored_witness:
  "extract_metrics_from_log token_loads token_log = Inr [token_metric]
   \<and> (\<exists>c'. parse_log_file token_loads (\<lambda>m. token_json) no_conversion fixed_clock token_log empty_db
           = Done c'
         \<and> token_usage (committed c') =
             [\<lparr>t_session_id = SText ''s1'', t_timestamp = SText ''2024-01-01T00:00:00'',
               t_model = SText ''unknown'', t_token_type = SText ''output'', t_value = SInt 42\<rparr>]
         \<and> sessions (committed c') =
             [\<lparr>s_session_id = SText ''s1'', s_user_id = SText ''unknown'',
               s_model = SText ''unknown'', s_started_at = SText ''2024-01-01T00:00:00'',
               s_ended_at = SNull\<rparr>]
         \<and> cost_usage (committed c') = [])"
proof -
  have dm: "dom (map_of [(''type'', JStr ''output''), (''session.id'', JStr ''s1'')])
      = {''type'', ''session.id''}"
    by auto
  have ex: "extract_metrics_from_log token_loads token_log =
      Inr [JObj [(''descriptor'', JObj [(''name'', JStr ''claude_code.token.usage'')]),
           (''dataPoints'', JArr [JObj
              [(''attributes'', JObj [(''type'', JStr ''output''), (''session.id'', JStr ''s1'')]),
               (''value'', JInt 42)]])]]"
    using token_log_extracted by (simp add: token_metric_def)
  from token_usage_metric_stored
    [OF ex _ _ _ _ _ _ _ dm,
     where dkvs = "[(''name'', JStr ''claude_code.token.usage'')]"
       and pkvs = "[(''attributes'', JObj [(''type'', JStr ''output''), (''session.id'', JStr ''s1'')]),
               (''value'', JInt 42)]"
       and dumps = "\<lambda>m. token_json" and cv = no_conversion and clock = fixed_clock
       and ?d0.0 = empty_db]
  obtain c' where
    "parse_log_file token_loads (\<lambda>m. token_json) no_conversion fixed_clock token_log empty_db = Done c'"
    "token_usage (committed c') = token_usage empty_db @
        [\<lparr>t_session_id = SText ''s1'',
          t_timestamp = store_as no_conversion NUMERIC (SText (fixed_clock 0)),
          t_model = SText ''unknown'', t_token_type = SText ''output'', t_value = SInt 42\<rparr>]"
    "SText ''s1'' \<notin> set (map s_session_id (sessions empty_db)) \<longrightarrow>
         sessions (committed c') = sessions empty_db @
           [\<lparr>s_session_id = SText ''s1'', s_user_id = SText ''unknown'',
             s_model = SText ''unknown'',
             s_started_at = store_as no_conversion NUMERIC (SText (fixed_clock 0)),
             s_ended_at = SNull\<rparr>]"
    "cost_usage (committed c') = cost_usage empty_db"
    by auto
  then show ?thesis
    using token_log_extracted
    by (simp add: empty_db_def fixed_clock_def no_conversion_def)
qed

text \<open>
  The claim as it is written puts the value 42 among the attributes. Such a data point
  has no value of its own, \<open>dp.get('value', 0)\<close> gives 0, and the stored token count is
  0, not 42.
\<close>

theorem token_usage_value_in_attributes_counterexample:
  "map t_value (token_usage (committed (conn_of
      (store_metrics (\<lambda>m. token_json) no_conversion fixed_clock 0 (create_database empty_db)
         [token_metric_value_in_attributes])))) = [SInt 0]"
  by code_simp

section \<open>The lenient object parser: what the rewriting does\<close>

text \<open>
  The key quoting on a text cut into runs of word characters: a run in front of a colon
  is quoted, a run in front of any other character or at the end is copied. Behind a
  character that is no word character the scan starts afresh.
\<close>

lemma quote_keys_run:
  "\<forall>c\<in>set w. is_word c \<Longrightarrow> quote_keys acc (w @ rest) = quote_keys (acc @ w) rest"
  by (induction w arbitrary: acc) auto

lemma quote_keys_word_colon:
  assumes "w \<noteq> []" and "\<forall>c\<in>set w. is_word c"
  shows "quote_keys [] (w @ CHR '':'' # rest) =
           [CHR 0x22] @ w @ [CHR 0x22, CHR '':''] @ quote_keys [] rest"
  using assms by (simp add: quote_keys_run is_word_def)

lemma quote_keys_word_other:
  assumes "\<forall>c\<in>set w. is_word c" and "\<not> is_word d" and "d \<noteq> CHR '':'' \<or> w = []"
  shows "quote_keys [] (w @ d # rest) = w @ d # quote_keys [] rest"
  using assms by (auto simp add: quote_keys_run)

lemma quote_keys_word_end:
  assumes "\<forall>c\<in>set w. is_word c"
  shows "quote_keys [] w = w"
  using quote_keys_run[OF assms, of "[]" "[]"] by simp

lemma quote_keys_after_nonword:
  "pre \<noteq> [] \<Longrightarrow> \<not> is_word (last pre) \<Longrightarrow>
     quote_keys acc (pre @ t) = quote_keys acc pre @ quote_keys [] t"
proof (induction pre arbitrary: acc)
  case Nil
  then show ?case by simp
next
  case (Cons c pre)
  show ?case
  proof (cases "pre = []")
    case True
    then show ?thesis using Cons.prems by simp
  next
    case False
    then show ?thesis using Cons by simp
  qed
qed

lemma quote_keys_at_boundary:
  "pre = [] \<or> \<not> is_word (last pre) \<Longrightarrow>
     quote_keys [] (pre @ t) = quote_keys [] pre @ quote_keys [] t"
  using quote_keys_after_nonword[of pre "[]" t] by (cases "pre = []") auto

lemma quote_keys_plain:
  "\<forall>c\<in>set s. \<not> is_word c \<and> c \<noteq> CHR '':'' \<Longrightarrow> quote_keys [] (s @ t) = s @ quote_keys [] t"
  by (induction s) auto

text \<open>
  The comma removal: whether a comma goes depends only on the text behind it, so the
  text in front of a comma is rewritten on its own; a comma goes when white space and
  a closing brace or bracket follow it, and stays otherwise.
\<close>

lemma strip_spaces:
  "\<forall>c\<in>set ws. is_space c \<Longrightarrow> strip_trailing_commas (ws @ rest) = ws @ strip_trailing_commas rest"
  by (induction ws) (auto simp: is_space_def)

lemma closes_spaces:
  "\<forall>c\<in>set ws. is_space c \<Longrightarrow> closes (ws @ rest) = closes rest"
  by (induction ws) (auto simp: closes_def)

lemma strip_trailing_comma:
  assumes "\<forall>c\<in>set ws. is_space c" and "d = CHR ''}'' \<or> d = CHR '']''"
  shows "strip_trailing_commas (CHR '','' # ws @ d # rest) = ws @ d # strip_trailing_commas rest"
proof -
  have nsp: "\<not> is_space d" using assms(2) by (auto simp: is_space_def)
  have "closes (ws @ d # rest)"
    using assms nsp by (simp add: closes_spaces) (simp add: closes_def)
  moreover have "strip_trailing_commas (d # rest) = d # strip_trailing_commas rest"
    using assms(2) by auto
  ultimately show ?thesis using assms(1) by (simp add: strip_spaces)
qed

lemma strip_kept_comma:
  assumes "\<forall>c\<in>set ws. is_space c" and "\<not> is_space d" and "d \<noteq> CHR ''}''" and "d \<noteq> CHR '']''"
  shows "strip_trailing_commas (CHR '','' # ws @ d # rest) =
           CHR '','' # ws @ strip_trailing_commas (d # rest)"
proof -
  have "\<not> closes (ws @ d # rest)"
    using assms by (simp add: closes_spaces) (simp add: closes_def)
  then show ?thesis using assms(1) by (simp add: strip_spaces)
qed

lemma strip_last_comma:
  assumes "\<forall>c\<in>set ws. is_space c"
  shows "strip_trailing_commas (CHR '','' # ws) = CHR '','' # ws"
proof -
  have "dropWhile is_space ws = []" using assms by simp
  then have "\<not> closes ws" by (simp only: closes_def list.case simp_thms)
  then show ?thesis using strip_spaces[OF assms, of "[]"] by simp
qed

lemma closes_comma: "closes (a @ CHR '','' # u) = closes a"
proof (cases "\<forall>c\<in>set a. is_space c")
  case True
  then have "dropWhile is_space (a @ CHR '','' # u) = CHR '','' # u"
    by (simp add: dropWhile_append2 is_space_def)
  moreover have "dropWhile is_space a = []" using True by simp
  ultimately show ?thesis by (simp only: closes_def) simp
next
  case False
  then have "dropWhile is_space (a @ CHR '','' # u) = dropWhile is_space a @ CHR '','' # u"
    by (auto simp: dropWhile_append1)
  moreover have "dropWhile is_space a \<noteq> []" using False by simp
  ultimately show ?thesis by (cases "dropWhile is_space a") (auto simp: closes_def)
qed

lemma strip_before_comma:
  "strip_trailing_commas (pre @ CHR '','' # u) =
     strip_trailing_commas pre @ strip_trailing_commas (CHR '','' # u)"
proof (induction pre)
  case Nil
  then show ?case by simp
next
  case (Cons c pre)
  have "closes (pre @ CHR '','' # u) = closes pre" by (rule closes_comma)
  then show ?case using Cons by simp
qed

lemma strip_no_comma: "CHR '','' \<notin> set s \<Longrightarrow> strip_trailing_commas s = s"
  by (induction s) auto

lemma strip_plain:
  "CHR '','' \<notin> set s \<Longrightarrow> strip_trailing_commas (s @ t) = s @ strip_trailing_commas t"
  by (induction s) auto

lemma replace_quotes_nth:
  "i < length s \<Longrightarrow> replace_quotes s ! i = (if s ! i = CHR 0x27 then CHR 0x22 else s ! i)"
  by (simp add: replace_quotes_def)

lemma foo_cleaned:
  \<open>strip_trailing_commas (quote_keys [] (replace_quotes ''{name: 'foo', count: 3,}''))
       = ''{"name": "foo", "count": 3}''\<close>
  by code_simp

text \<open>
  Claim C3, as amended. \<open>parse_metric_block\<close> replaces the single quotes, then quotes
  the keys, then removes the trailing commas, and hands the result to the strict
  parser: a value that the strict parser returns is the result, a \<open>JSONDecodeError\<close>
  is the result \<open>None\<close>, and any other exception of the strict parser leaves the
  function. The quote replacement changes every single quote to a double quote and no
  other character. The key quoting, at every place where a run of word characters
  starts, quotes the run when a colon follows it and copies it when another character
  or the end of the text follows it. The comma removal drops a comma that is followed
  by white space and a closing brace or bracket, keeps a comma that is followed by
  white space and another character or the end of the text, and changes no text
  without a comma. The text \<open>{name: 'foo', count: 3,}\<close> becomes
  \<open>{"name": "foo", "count": 3}\<close>, so that its result is the strict parse of that
  text.
\<close>

theorem parse_metric_block_rewrites:
  \<open>parse_metric_block loads block =
      (case loads (strip_trailing_commas (quote_keys [] (replace_quotes block))) of
         Parsed v \<Rightarrow> Inr (Some v)
       | DecodeError \<Rightarrow> Inr None
       | Raises e \<Rightarrow> Inl e)
   \<and> length (replace_quotes s) = length s
   \<and> (\<forall>i<length s. replace_quotes s ! i = (if s ! i = CHR 0x27 then CHR 0x22 else s ! i))
   \<and> ((pre = [] \<or> \<not> is_word (last pre)) \<and> (\<forall>c\<in>set w. is_word c) \<longrightarrow>
        (w \<noteq> [] \<longrightarrow>
           quote_keys [] (pre @ w @ CHR '':'' # rest) =
             quote_keys [] pre @ [CHR 0x22] @ w @ [CHR 0x22, CHR '':''] @ quote_keys [] rest)
      \<and> (\<not> is_word d \<and> (d \<noteq> CHR '':'' \<or> w = []) \<longrightarrow>
           quote_keys [] (pre @ w @ d # rest) = quote_keys [] pre @ w @ d # quote_keys [] rest)
      \<and> quote_keys [] (pre @ w) = quote_keys [] pre @ w)
   \<and> ((\<forall>c\<in>set ws. is_space c) \<longrightarrow>
        (d = CHR ''}'' \<or> d = CHR '']'' \<longrightarrow>
           strip_trailing_commas (t @ CHR '','' # ws @ d # rest) =
             strip_trailing_commas t @ ws @ d # strip_trailing_commas rest)
      \<and> (\<not> is_space d \<and> d \<noteq> CHR ''}'' \<and> d \<noteq> CHR '']'' \<longrightarrow>
           strip_trailing_commas (t @ CHR '','' # ws @ d # rest) =
             strip_trailing_commas t @ CHR '','' # ws @ strip_trailing_commas (d # rest))
      \<and> strip_trailing_commas (t @ CHR '','' # ws) = strip_trailing_commas t @ CHR '','' # ws)
   \<and> (CHR '','' \<notin> set t \<longrightarrow> strip_trailing_commas t = t)
   \<and> strip_trailing_commas (quote_keys [] (replace_quotes ''{name: 'foo', count: 3,}''))
       = ''{"name": "foo", "count": 3}''
   \<and> parse_metric_block loads ''{name: 'foo', count: 3,}'' =
       (case loads ''{"name": "foo", "count": 3}'' of
          Parsed v \<Rightarrow> Inr (Some v)
        | DecodeError \<Rightarrow> Inr None
        | Raises e \<Rightarrow> Inl e)\<close>
proof -
  have m: "parse_metric_block loads b =
      (case loads (strip_trailing_commas (quote_keys [] (replace_quotes b))) of
         Parsed v \<Rightarrow> Inr (Some v)
       | DecodeError \<Rightarrow> Inr None
       | Raises e \<Rightarrow> Inl e)" for b
    by (simp add: parse_metric_block_def Let_def)
  have q: "quote_keys [] (pre @ u) = quote_keys [] pre @ quote_keys [] u"
    if "pre = [] \<or> \<not> is_word (last pre)" for u
    using that by (rule quote_keys_at_boundary)
  have q1: "quote_keys [] (pre @ w @ CHR '':'' # rest) =
             quote_keys [] pre @ [CHR 0x22] @ w @ [CHR 0x22, CHR '':''] @ quote_keys [] rest"
    if "pre = [] \<or> \<not> is_word (last pre)" "\<forall>c\<in>set w. is_word c" "w \<noteq> []"
    by (simp only: q[OF that(1)] quote_keys_word_colon[OF that(3,2)])
  have q2: "quote_keys [] (pre @ w @ d # rest) = quote_keys [] pre @ w @ d # quote_keys [] rest"
    if "pre = [] \<or> \<not> is_word (last pre)" "\<forall>c\<in>set w. is_word c"
      "\<not> is_word d" "d \<noteq> CHR '':'' \<or> w = []"
    by (simp only: q[OF that(1)] quote_keys_word_other[OF that(2,3,4)])
  have q3: "quote_keys [] (pre @ w) = quote_keys [] pre @ w"
    if "pre = [] \<or> \<not> is_word (last pre)" "\<forall>c\<in>set w. is_word c"
    by (simp only: q[OF that(1)] quote_keys_word_end[OF that(2)])
  have s1: "strip_trailing_commas (t @ CHR '','' # ws @ d # rest) =
             strip_trailing_commas t @ ws @ d # strip_trailing_commas rest"
    if "\<forall>c\<in>set ws. is_space c" "d = CHR ''}'' \<or> d = CHR '']''"
    by (simp only: strip_before_comma[of t] strip_trailing_comma[OF that])
  have s2: "strip_trailing_commas (t @ CHR '','' # ws @ d # rest) =
             strip_trailing_commas t @ CHR '','' # ws @ strip_trailing_commas (d # rest)"
    if "\<forall>c\<in>set ws. is_space c" "\<not> is_space d" "d \<noteq> CHR ''}''" "d \<noteq> CHR '']''"
    by (simp only: strip_before_comma[of t] strip_kept_comma[OF that])
  have s3: "strip_trailing_commas (t @ CHR '','' # ws) = strip_trailing_commas t @ CHR '','' # ws"
    if "\<forall>c\<in>set ws. is_space c"
    by (simp only: strip_before_comma[of t] strip_last_comma[OF that])
  have l: "length (replace_quotes s) = length s"
    by (simp add: replace_quotes_def)
  show ?thesis
    using q1 q2 q3 s1 s2 s3 strip_no_comma[of t] replace_quotes_nth[of _ s]
    by (simp only: m foo_cleaned l simp_thms) blast
qed

theorem parse_metric_block_rewrites_witness:
  "parse_metric_block foo_loads ''{name: 'foo', count: 3,}''
     = Inr (Some (JObj [(''name'', JStr ''foo''), (''count'', JInt 3)]))
   \<and> parse_metric_block foo_loads ''{name: 'foo' count: 3}'' = Inr None"
proof -
  have "parse_metric_block foo_loads ''{name: 'foo' count: 3}'' = Inr None"
    by code_simp
  then show ?thesis
    using parse_metric_block_rewrites[of foo_loads "''{name: 'foo', count: 3,}''"]
    by (simp add: foo_loads_def)
qed

lemma deep_span_cleaned:
  "strip_trailing_commas (quote_keys [] (replace_quotes deep_span)) = deep_json"
proof -
  have r: "replace_quotes deep_span = deep_span"
    by (simp add: replace_quotes_def deep_span_def)
  have q1: "quote_keys [] (replicate nesting CHR ''['' @ t) = replicate nesting CHR ''['' @ quote_keys [] t" for t
    by (rule quote_keys_plain) (simp add: is_word_def)
  have q2: "quote_keys [] (replicate nesting CHR '']'' @ t) = replicate nesting CHR '']'' @ quote_keys [] t" for t
    by (rule quote_keys_plain) (simp add: is_word_def)
  have q: "quote_keys [] deep_span = deep_json"
    by (simp add: deep_span_def deep_json_def is_word_def q1 q2)
  have "CHR '','' \<notin> set deep_json"
    by (simp add: deep_json_def)
  then show ?thesis by (simp add: r q strip_no_comma)
qed

text \<open>
  The claim as it is written lets no span abort the caller. \<open>deep_span\<close> is a
  balanced span whose rewriting is the JSON text \<open>deep_json\<close>; the strict parser
  ends on it with \<open>RecursionError\<close>, which \<open>except json.JSONDecodeError\<close> does not
  catch, and the exception leaves \<open>parse_metric_block\<close>.
\<close>

theorem uncaught_parser_exception_counterexample:
  "parse_metric_block deep_loads deep_span = Inl RecursionError"
  by (simp add: parse_metric_block_def Let_def deep_span_cleaned deep_loads_def)

section \<open>Parse failures\<close>




















section \<open>The cache metrics\<close>



section \<open>Commits\<close>

text \<open>No statement and no step of \<open>store_metric\<close> before its \<open>commit\<close> changes the committed store.\<close>

lemma insert_committed:
  "committed (conn_of (insert_raw_metric cv ps c)) = committed c"
  "committed (conn_of (insert_or_ignore_session cv ps c)) = committed c"
  "committed (conn_of (insert_token_usage cv ps c)) = committed c"
  "committed (conn_of (insert_cost_usage cv ps c)) = committed c"
  "committed (conn_of (insert_active_time cv ps c)) = committed c"
  "committed (conn_of (insert_code_activity cv ps c)) = committed c"
  by (simp_all add: insert_raw_metric_def insert_or_ignore_session_def insert_token_usage_def
      insert_cost_usage_def insert_active_time_def insert_code_activity_def conn_of_def Let_def
      split: sum.splits list.splits)

lemma store_usage_committed:
  "committed (conn_of (store_usage cv ts n attrs sid model v c)) = committed c"
  using insert_committed(3,4,5,6)[of cv _ c]
  by (auto simp add: store_usage_def conn_of_def split: sum.splits json.splits)

lemma store_data_point_committed:
  "committed (conn_of (store_data_point cv ts n c dp)) = committed c"
proof -
  have a: "committed c1 = committed c" if "insert_or_ignore_session cv ps c = Done c1" for ps c1
    using insert_committed(2)[of cv ps c] that by (simp add: conn_of_def)
  have b: "committed c1 = committed c" if "insert_or_ignore_session cv ps c = Raised e c1"
    for ps e c1
    using insert_committed(2)[of cv ps c] that by (simp add: conn_of_def)
  have u: "committed c2 = committed c1"
    if "store_usage cv ts n attrs sid model v c1 = Done c2" for attrs sid model v c1 c2
    using store_usage_committed[of cv ts n attrs sid model v c1] that by (simp add: conn_of_def)
  have w: "committed c2 = committed c1"
    if "store_usage cv ts n attrs sid model v c1 = Raised e c2" for attrs sid model v c1 c2 e
    using store_usage_committed[of cv ts n attrs sid model v c1] that by (simp add: conn_of_def)
  show ?thesis
    by (auto simp add: store_data_point_def conn_of_def
        dest!: a b u w split: sum.splits outcome.splits)
qed

lemma store_data_points_committed:
  "committed (conn_of (store_data_points cv ts n c dps)) = committed c"
proof (induction dps arbitrary: c)
  case Nil
  show ?case by (simp add: conn_of_def)
next
  case (Cons dp dps)
  show ?case
  proof (cases "store_data_point cv ts n c dp")
    case (Done c1)
    then have "committed c1 = committed c"
      using store_data_point_committed[of cv ts n c dp] by (simp add: conn_of_def)
    then show ?thesis using Done Cons[of c1] by simp
  next
    case (Raised e c1)
    then have "committed c1 = committed c"
      using store_data_point_committed[of cv ts n c dp] by (simp add: conn_of_def)
    then show ?thesis using Raised by (simp add: conn_of_def)
  qed
qed

lemma store_metric_Raised:
  assumes "store_metric dumps cv now timestamp c m = Raised e c'"
  shows "committed c' = committed c"
proof -
  have r: "committed c2 = committed c" if "insert_raw_metric cv ps c = Done c2" for ps c2
    using insert_committed(1)[of cv ps c] that by (simp add: conn_of_def)
  have r': "committed c2 = committed c" if "insert_raw_metric cv ps c = Raised e2 c2" for ps c2 e2
    using insert_committed(1)[of cv ps c] that by (simp add: conn_of_def)
  have p: "committed c2 = committed c1"
    if "store_data_points cv ts n c1 dps = Raised e2 c2" for ts n c1 dps c2 e2
    using store_data_points_committed[of cv ts n c1 dps] that by (simp add: conn_of_def)
  show ?thesis
    using assms
    by (auto simp add: store_metric_def Let_def dest!: r r' p
        split: if_splits sum.splits outcome.splits)
qed

lemma store_metric_Done:
  assumes "store_metric dumps cv now timestamp c m = Done c'"
    and "working c = committed c"
  shows "committed c' = working c'"
  using assms
  by (auto simp add: store_metric_def Let_def commit_def
      split: if_splits sum.splits outcome.splits)

lemma store_metrics_append:
  "store_metrics dumps cv clock k c (ms1 @ ms2) =
     (case store_metrics dumps cv clock k c ms1 of
        Done c1 \<Rightarrow> store_metrics dumps cv clock (k + length ms1) c1 ms2
      | Raised e c1 \<Rightarrow> Raised e c1)"
  by (induction ms1 arbitrary: k c) (auto split: outcome.splits)

lemma store_metrics_Done:
  "store_metrics dumps cv clock k c ms = Done c' \<Longrightarrow> working c = committed c
     \<Longrightarrow> committed c' = working c'"
proof (induction ms arbitrary: k c)
  case Nil
  then show ?case by simp
next
  case (Cons m ms)
  from Cons.prems(1) obtain c1 where
    m: "store_metric dumps cv (clock k) None c m = Done c1"
    and rest: "store_metrics dumps cv clock (Suc k) c1 ms = Done c'"
    by (auto split: outcome.splits)
  from store_metric_Done[OF m Cons.prems(2)] have "working c1 = committed c1" by simp
  from Cons.IH[OF rest this] show ?case .
qed

text \<open>
  Claim C5, as amended. \<open>store_metric\<close> commits at the end of every metric it stores,
  so one run of \<open>parse_log_file\<close> commits once for each metric and not once for the
  file. When the run starts with nothing pending and an exception ends it in some
  metric, the rows of all metrics stored before that one are committed and stay
  visible, and none of the rows written for the failing metric is: the committed store
  is the store as it stood when the metrics before it were done.
\<close>

theorem store_metrics_commits_per_metric:
  assumes clean: "working c = committed c"
    and before: "store_metrics dumps cv clock k c ms1 = Done c1"
    and abort: "store_metric dumps cv (clock (k + length ms1)) None c1 m = Raised e c2"
  shows "store_metrics dumps cv clock k c (ms1 @ m # ms2) = Raised e c2
       \<and> committed c1 = working c1
       \<and> committed c2 = working c1"
proof -
  have run: "store_metrics dumps cv clock k c (ms1 @ m # ms2) = Raised e c2"
    by (simp add: store_metrics_append before abort)
  have c1: "committed c1 = working c1"
    by (rule store_metrics_Done[OF before clean])
  have "committed c2 = committed c1"
    by (rule store_metric_Raised[OF abort])
  with run c1 show ?thesis by simp
qed

lemma example_clean: "working (create_database empty_db) = committed (create_database empty_db)"
  by (simp add: create_database_def commit_def)

lemma example_before:
  "store_metrics (\<lambda>m. token_json) no_conversion fixed_clock 0 (create_database empty_db)
      [token_metric]
   = Done (conn_of (store_metrics (\<lambda>m. token_json) no_conversion fixed_clock 0
        (create_database empty_db) [token_metric]))"
  by code_simp

lemma example_abort:
  "store_metric (\<lambda>m. token_json) no_conversion (fixed_clock (0 + length [token_metric])) None
      (conn_of (store_metrics (\<lambda>m. token_json) no_conversion fixed_clock 0
        (create_database empty_db) [token_metric])) histogram_metric
   = Raised BindError
      (conn_of (store_metric (\<lambda>m. token_json) no_conversion (fixed_clock (0 + length [token_metric])) None
      (conn_of (store_metrics (\<lambda>m. token_json) no_conversion fixed_clock 0
        (create_database empty_db) [token_metric])) histogram_metric))"
  by code_simp

lemma example_rows:
  "map t_value (token_usage (working (conn_of (store_metrics (\<lambda>m. token_json) no_conversion
      fixed_clock 0 (create_database empty_db) [token_metric])))) = [SInt 42]"
  by code_simp

theorem store_metrics_commits_per_metric_witness:
  "map t_value (token_usage (committed (conn_of
     (store_metrics (\<lambda>m. token_json) no_conversion fixed_clock 0 (create_database empty_db)
        ([token_metric] @ histogram_metric # [token_metric]))))) = [SInt 42]"
  using store_metrics_commits_per_metric[OF example_clean example_before example_abort,
      where ?ms2.0 = "[token_metric]"] example_rows
  by (simp add: conn_of_def)

text \<open>
  The claim as it is written says that no row of an aborted run is visible. A run over
  a token-usage metric and then a metric whose value cannot be bound ends with an
  exception, and the committed store holds the token row and the archive row of the
  first metric; the archive row of the second is pending only.
\<close>

theorem commit_per_metric_counterexample:
  "store_metrics (\<lambda>m. token_json) no_conversion fixed_clock 0 (create_database empty_db)
      [token_metric, histogram_metric]
   = Raised BindError
       (conn_of (store_metrics (\<lambda>m. token_json) no_conversion fixed_clock 0
          (create_database empty_db) [token_metric, histogram_metric]))
   \<and> map t_value (token_usage (committed (conn_of
        (store_metrics (\<lambda>m. token_json) no_conversion fixed_clock 0 (create_database empty_db)
          [token_metric, histogram_metric])))) = [SInt 42]
   \<and> length (raw_metrics (committed (conn_of
        (store_metrics (\<lambda>m. token_json) no_conversion fixed_clock 0 (create_database empty_db)
          [token_metric, histogram_metric])))) = 1
   \<and> length (raw_metrics (working (conn_of
        (store_metrics (\<lambda>m. token_json) no_conversion fixed_clock 0 (create_database empty_db)
          [token_metric, histogram_metric])))) = 2"
  by code_simp

section \<open>Transcript messages\<close>


lemma preview_cases:
  "content_preview (first_content py_repr (JStr s)) = Inr (JStr (take 200 s))"
  "map_of ob ''text'' = Some (JStr t) \<Longrightarrow>
     content_preview (first_content py_repr (JArr (JObj ob # rest))) = Inr (JStr (take 200 t))"
  "map_of ob ''text'' = None \<Longrightarrow>
     content_preview (first_content py_repr (JArr (JObj ob # rest))) =
       Inr (JStr (take 200 (py_repr (JObj ob))))"
  "content_preview (first_content py_repr (JArr (JStr x # rest))) = Inr (JStr (take 200 x))"
  "content_preview (first_content py_repr (JArr [])) = Inr (JStr [])"
  by (simp_all add: py_str_def)


















section \<open>The spans of the block extractor\<close>

lemma re_split_head:
  "re_split cur s = (cur @ until_marker s) # tl (re_split [] s)"
proof (induction s arbitrary: cur)
  case Nil
  show ?case by simp
next
  case (Cons c cs)
  show ?case
  proof (cases "marker_at (c # cs)")
    case True
    then show ?thesis by simp
  next
    case False
    have "re_split cur (c # cs) = re_split (cur @ [c]) cs" using False by simp
    also have "\<dots> = (cur @ [c] @ until_marker cs) # tl (re_split [] cs)"
      using Cons[of "cur @ [c]"] by simp
    also have "tl (re_split [] cs) = tl (re_split [c] cs)"
      using Cons[of "[c]"] by simp
    finally show ?thesis using False by simp
  qed
qed

lemma tail_pieces_Cons:
  "tl (re_split [] (c # cs)) =
     (if marker_at (c # cs) then (c # until_marker cs) # tl (re_split [] cs)
      else tl (re_split [] cs))"
proof (cases "marker_at (c # cs)")
  case True
  then show ?thesis using re_split_head[of "[c]" cs] by simp
next
  case False
  then show ?thesis using re_split_head[of "[c]" cs] by simp
qed

lemma until_marker_no_brace:
  "\<forall>x\<in>set a. x \<noteq> CHR ''{'' \<Longrightarrow> until_marker (a @ b) = a @ until_marker b"
  by (induction a) (auto simp: marker_at_def)

lemma until_marker_prefix: "take (length (until_marker s)) s = until_marker s"
  by (induction s) auto

lemma contains_middle: "contains p (a @ p @ b)"
proof (induction a)
  case Nil
  show ?case
  proof (cases "p @ b")
    case Nil
    then show ?thesis by simp
  next
    case (Cons x xs)
    have "take (length p) (p @ b) = p" by simp
    then have "starts_with p (x # xs)" unfolding starts_with_def Cons[symmetric] .
    then have "contains p (x # xs)" by simp
    then show ?thesis using Cons by simp
  qed
next
  case (Cons x a)
  then show ?case by simp
qed

lemma scan_braces_Some:
  "scan_braces n i s = Some e \<Longrightarrow>
     i < e \<and> e - i \<le> length s \<and> scan_braces n i (take (e - i) s @ r) = Some e"
proof (induction s arbitrary: n i)
  case Nil
  then show ?case by simp
next
  case (Cons c cs)
  show ?case
  proof (cases "c = CHR ''{''")
    case True
    with Cons.prems have "scan_braces (n + 1) (i + 1) cs = Some e" by simp
    from Cons.IH[OF this] True show ?thesis
      by (auto simp add: take_Cons' Suc_diff_Suc)
  next
    case False
    show ?thesis
    proof (cases "c = CHR ''}''")
      case True
      show ?thesis
      proof (cases "n - 1 = 0")
        case z: True
        with Cons.prems True have "e = i + 1" by simp
        with True z show ?thesis by simp
      next
        case nz: False
        with Cons.prems True have "scan_braces (n - 1) (i + 1) cs = Some e" by simp
        from Cons.IH[OF this] True nz show ?thesis
          by (auto simp add: take_Cons' Suc_diff_Suc)
      qed
    next
      case nb: False
      with Cons.prems False have "scan_braces n (i + 1) cs = Some e" by simp
      from Cons.IH[OF this] False nb show ?thesis
        by (auto simp add: take_Cons' Suc_diff_Suc)
    qed
  qed
qed

lemma scan_braces_append:
  "scan_braces n i a = Some e \<Longrightarrow> scan_braces n i (a @ b) = Some e"
  by (induction a arbitrary: n i) (auto split: if_splits)

lemma marker_piece_contains:
  assumes "marker_at (c # cs)"
  shows "contains ''descriptor:'' (c # until_marker cs)"
proof -
  define ws where "ws = takeWhile is_space cs"
  define r where "r = dropWhile is_space cs"
  define k where "k = ''descriptor:''"
  define rest where "rest = drop (length k) r"
  from assms have st: "starts_with k r"
    by (simp add: marker_at_def r_def k_def)
  have cs: "cs = ws @ r" by (simp add: ws_def r_def)
  from st have "take (length k) r = k" unfolding starts_with_def .
  then have r: "r = k @ rest" unfolding rest_def by (metis append_take_drop_id)
  have sp: "\<forall>x\<in>set ws. is_space x" unfolding ws_def by (auto dest: set_takeWhileD)
  have "\<not> is_space CHR ''{''" by (simp add: is_space_def)
  with sp have nb1: "\<forall>x\<in>set ws. x \<noteq> CHR ''{''" by auto
  have nb2: "\<forall>x\<in>set k. x \<noteq> CHR ''{''" unfolding k_def by simp
  from nb1 nb2 have nb: "\<forall>x\<in>set (ws @ k). x \<noteq> CHR ''{''" by auto
  have "cs = (ws @ k) @ rest" using cs r by simp
  then have "until_marker cs = (ws @ k) @ until_marker rest"
    using until_marker_no_brace[OF nb, of rest] by simp
  then have "c # until_marker cs = (c # ws) @ k @ until_marker rest"
    by simp
  then show ?thesis using contains_middle[of k "c # ws" "until_marker rest"]
    unfolding k_def by simp
qed

lemma piece_span:
  assumes m: "marker_at (c # cs)"
    and apart: "(case scan_braces 0 0 (c # cs) of
                   Some e \<Rightarrow> e \<le> Suc (length (until_marker cs)) | None \<Rightarrow> True)"
  shows "block_span (c # until_marker cs) =
           Some (case scan_braces 0 0 (c # cs) of Some e \<Rightarrow> take e (c # cs) | None \<Rightarrow> [])"
proof -
  define p where "p = c # until_marker cs"
  from m have c: "c = CHR ''{''" by (simp add: marker_at_def)
  have has: "contains ''descriptor:'' p"
    unfolding p_def by (rule marker_piece_contains[OF m])
  have fc: "find_char CHR ''{'' p = Some 0" unfolding p_def using c by simp
  have pre: "take (length p) (c # cs) = p"
    unfolding p_def using until_marker_prefix[of cs] by simp
  then have whole: "c # cs = p @ drop (length p) (c # cs)"
    by (metis append_take_drop_id)
  have sc: "scan_braces 0 0 p =
      (case scan_braces 0 0 (c # cs) of Some e \<Rightarrow> Some e | None \<Rightarrow> None)"
  proof (cases "scan_braces 0 0 (c # cs)")
    case None
    have "scan_braces 0 0 p = None"
    proof (rule ccontr)
      assume "scan_braces 0 0 p \<noteq> None"
      then obtain e where "scan_braces 0 0 p = Some e" by auto
      from scan_braces_append[OF this, of "drop (length p) (c # cs)"] whole None
      show False by simp
    qed
    with None show ?thesis by simp
  next
    case (Some e)
    with apart have le: "e \<le> length p" by (simp add: p_def)
    from scan_braces_Some[OF Some, of "drop e p"]
    have s: "scan_braces 0 0 (take e (c # cs) @ drop e p) = Some e" by simp
    have "take e (c # cs) = take e p"
      using le pre by (metis min.absorb1 take_take)
    with s have "scan_braces 0 0 p = Some e" by simp
    with Some show ?thesis by simp
  qed
  have tk: "\<And>e. scan_braces 0 0 (c # cs) = Some e \<Longrightarrow> take e p = take e (c # cs)"
  proof -
    fix e assume e: "scan_braces 0 0 (c # cs) = Some e"
    with apart have le: "e \<le> length p" by (simp add: p_def)
    show "take e p = take e (c # cs)"
      using le pre by (metis min.absorb1 take_take)
  qed
  show ?thesis
    unfolding p_def[symmetric]
    using has fc sc tk
    by (auto simp add: block_span_def Let_def split: option.splits)
qed

lemma tail_spans:
  "spans_apart s \<Longrightarrow>
     filter (\<lambda>x. x \<noteq> []) (List.map_filter block_span (tl (re_split [] s))) = marker_spans_spec s"
proof (induction s)
  case Nil
  show ?case by simp
next
  case (Cons c cs)
  from Cons.prems have rest: "spans_apart cs" by simp
  note IH = Cons.IH[OF rest]
  show ?case
  proof (cases "marker_at (c # cs)")
    case False
    then show ?thesis using IH by (simp add: tail_pieces_Cons del: re_split.simps)
  next
    case True
    from Cons.prems True have apart:
      "(case scan_braces 0 0 (c # cs) of
          Some e \<Rightarrow> e \<le> Suc (length (until_marker cs)) | None \<Rightarrow> True)"
      by simp
    note ps = piece_span[OF True apart]
    show ?thesis
    proof (cases "scan_braces 0 0 (c # cs)")
      case None
      then show ?thesis using True IH ps
        by (simp add: tail_pieces_Cons del: re_split.simps)
    next
      case (Some e)
      from scan_braces_Some[OF Some, of "[]"] have "0 < e" by simp
      then have ne: "take e (c # cs) \<noteq> []" by (cases e) auto
      show ?thesis using True IH ps Some ne
        by (simp add: tail_pieces_Cons del: re_split.simps take_eq_Nil)
    qed
  qed
qed

lemma process_blocks_parse_spans:
  "process_blocks loads bs = parse_spans loads (List.map_filter block_span bs)"
  by (induction bs) (auto simp add: List.map_filter_simps split: option.splits sum.splits)

lemma parse_spans_nonempty:
  "parse_metric_block loads [] = Inr None \<Longrightarrow>
     parse_spans loads (filter (\<lambda>x. x \<noteq> []) strs) = parse_spans loads strs"
  by (induction strs) (auto split: option.splits sum.splits)

lemma parse_spans_no_raise:
  "\<forall>s\<in>set strs. \<exists>r. parse_metric_block loads s = Inr r \<Longrightarrow>
     parse_spans loads strs =
       Inr (filter truthy (List.map_filter
              (\<lambda>s. case parse_metric_block loads s of Inr r \<Rightarrow> r | Inl e \<Rightarrow> None) strs))"
  by (induction strs) (auto simp add: List.map_filter_simps split: option.splits sum.splits)

text \<open>
  Claim C2, as amended. The extractor cuts the text in front of every marker and, in
  each piece that contains \<open>descriptor:\<close> and a brace, takes the text from the first
  brace of the piece to the brace that balances it within the piece. When the text in
  front of the first marker does not contain \<open>descriptor:\<close> and the balancing brace
  of every marker comes before the next marker, the spans it hands to the parser are
  exactly the spans that start at a marker's brace and end at its matching brace,
  whatever other braces the text holds; a marker whose brace is not balanced gives the
  empty text, which the strict parser rejects, and the extraction goes on with the next
  marker. The result of the extractor is that of parsing those spans in order: when
  the parser raises on none of them, the metrics returned are the truthy parses of
  those spans.
\<close>

theorem extractor_spans:
  assumes apart: "spans_apart text"
    and first: "\<not> contains ''descriptor:'' (until_marker text)"
    and empty: "loads [] = DecodeError"
  shows "filter (\<lambda>s. s \<noteq> []) (metric_strs text) = marker_spans_spec text
       \<and> extract_metrics_from_log loads text = parse_spans loads (marker_spans_spec text)
       \<and> ((\<forall>s\<in>set (marker_spans_spec text). \<exists>r. parse_metric_block loads s = Inr r) \<longrightarrow>
            extract_metrics_from_log loads text =
              Inr (filter truthy (List.map_filter
                     (\<lambda>s. case parse_metric_block loads s of Inr r \<Rightarrow> r | Inl e \<Rightarrow> None)
                     (marker_spans_spec text))))"
proof -
  have head: "block_span (until_marker text) = None"
    using first by (simp add: block_span_def)
  have "metric_strs text =
      List.map_filter block_span (([] @ until_marker text) # tl (re_split [] text))"
    unfolding metric_strs_def by (subst re_split_head) (rule refl)
  then have strs: "metric_strs text = List.map_filter block_span (tl (re_split [] text))"
    using head by simp
  have spans: "filter (\<lambda>s. s \<noteq> []) (metric_strs text) = marker_spans_spec text"
    unfolding strs by (rule tail_spans[OF apart])
  have pe: "parse_metric_block loads [] = Inr None"
    using empty by (simp add: parse_metric_block_def replace_quotes_def)
  have "extract_metrics_from_log loads text = parse_spans loads (metric_strs text)"
    by (simp only: extract_metrics_from_log_def metric_strs_def process_blocks_parse_spans)
  also have "\<dots> = parse_spans loads (filter (\<lambda>s. s \<noteq> []) (metric_strs text))"
    by (simp only: parse_spans_nonempty[OF pe])
  finally have ex: "extract_metrics_from_log loads text = parse_spans loads (marker_spans_spec text)"
    by (simp only: spans)
  show ?thesis
    using parse_spans_no_raise[of "marker_spans_spec text" loads]
    by (simp only: spans ex simp_thms) blast
qed

lemma noisy_log_apart: "spans_apart noisy_log"
  by code_simp

lemma noisy_log_head: "\<not> contains ''descriptor:'' (until_marker noisy_log)"
  by code_simp

lemma noisy_log_spans: "marker_spans_spec noisy_log = [token_log]"
  by code_simp

lemma token_loads_empty: "token_loads [] = DecodeError"
  by code_simp

lemma token_log_parsed: "parse_metric_block token_loads token_log = Inr (Some token_metric)"
  by code_simp

theorem extractor_spans_witness:
  "filter (\<lambda>s. s \<noteq> []) (metric_strs noisy_log) = [token_log]
   \<and> extract_metrics_from_log token_loads noisy_log = Inr [token_metric]"
  using extractor_spans[of noisy_log token_loads, OF noisy_log_apart noisy_log_head
      token_loads_empty]
  by (simp add: noisy_log_spans token_log_parsed token_metric_def)

text \<open>
  The claim as it is written holds for no text with \<open>descriptor:\<close> and a brace in front
  of the first marker, and for no text with a marker inside a marker's span. In the
  first text below the extractor hands \<open>{x: 1}\<close> to the parser, a span that starts at
  no marker; in the second the outer span, which starts at a marker and is balanced,
  is not extracted, because the text is cut at the inner marker.
\<close>

theorem extractor_spans_counterexample:
  "metric_strs ''{x: 1} descriptor: y {descriptor: 2}'' = [''{x: 1}'', ''{descriptor: 2}'']
   \<and> marker_spans_spec ''{x: 1} descriptor: y {descriptor: 2}'' = [''{descriptor: 2}'']
   \<and> metric_strs ''{descriptor: {descriptor: 1}}'' = [[], ''{descriptor: 1}'']
   \<and> marker_spans_spec ''{descriptor: {descriptor: 1}}''
       = [''{descriptor: {descriptor: 1}}'', ''{descriptor: 1}'']"
  by code_simp

end
